theory Spec2Isabelle
  imports Complex_Main "HOL-Library.Word"
begin

unbundle bit_operations_syntax

section \<open>Data model\<close>

text \<open>
  The main process of the PDF signer (\<^verbatim>\<open>src/main/index.ts\<close>) is glue code around four
  host libraries: Node's \<^verbatim>\<open>fs\<close> and \<^verbatim>\<open>crypto\<close>, Electron's \<^verbatim>\<open>safeStorage\<close>, and the
  PDF libraries. The glue code is embedded function by function; the libraries are
  parameters of the embedding (records of functions), and every property that depends on a
  library's contract names that contract as a premise.

  A \<^verbatim>\<open>Buffer\<close> is a list of bytes, a JavaScript string a \<open>string\<close>.
\<close>

type_synonym byte = "8 word"
type_synonym buffer = "byte list"

text \<open>
  The values that cross \<^verbatim>\<open>JSON.stringify\<close> / \<^verbatim>\<open>JSON.parse\<close>. \<open>JNull\<close> is JavaScript's
  \<^verbatim>\<open>null\<close>, which is also what the credential handlers return for "nothing stored".
\<close>

datatype json =
    JNull
  | JBool bool
  | JNum int
  | JStr string
  | JArr "json list"
  | JObj "(string \<times> json) list"

text \<open>
  The capabilities imported by the vault code. A function that can throw returns
  \<open>None\<close> for the throw.
  \<^item> \<open>userData\<close>: \<^verbatim>\<open>app.getPath('userData')\<close>.
  \<^item> \<open>isEncryptionAvailable\<close>, \<open>encryptString\<close>, \<open>decryptString\<close>: \<^verbatim>\<open>safeStorage\<close>.
  \<^item> \<open>base64_encode\<close>: \<^verbatim>\<open>buf.toString('base64')\<close>; \<open>base64_decode\<close>:
    \<^verbatim>\<open>Buffer.from(s, 'base64')\<close>, which never throws.
  \<^item> \<open>gcm_seal key iv plaintext\<close>: \<^verbatim>\<open>createCipheriv('aes-256-gcm', key, iv)\<close>,
    \<^verbatim>\<open>update\<close>, \<^verbatim>\<open>final\<close> and \<^verbatim>\<open>getAuthTag\<close>; the result is (ciphertext, tag).
  \<^item> \<open>gcm_open key iv tag ciphertext\<close>: \<^verbatim>\<open>createDecipheriv\<close>, \<^verbatim>\<open>setAuthTag\<close>,
    \<^verbatim>\<open>update\<close> and \<^verbatim>\<open>final\<close>; \<open>None\<close> when any of them throws.
  \<^item> \<open>json_stringify\<close>: \<^verbatim>\<open>JSON.stringify\<close> followed by the UTF-8 encoding done by
    \<^verbatim>\<open>cipher.update(jsonStr, 'utf8')\<close>; \<open>json_parse\<close>: \<^verbatim>\<open>toString('utf8')\<close> followed by
    \<^verbatim>\<open>JSON.parse\<close>.
\<close>

record host =
  userData :: string
  isEncryptionAvailable :: bool
  encryptString :: "string \<Rightarrow> buffer option"
  decryptString :: "buffer \<Rightarrow> string option"
  base64_encode :: "buffer \<Rightarrow> string"
  base64_decode :: "string \<Rightarrow> buffer"
  gcm_seal :: "buffer \<Rightarrow> buffer \<Rightarrow> buffer \<Rightarrow> (buffer \<times> buffer) option"
  gcm_open :: "buffer \<Rightarrow> buffer \<Rightarrow> buffer \<Rightarrow> buffer \<Rightarrow> buffer option"
  json_stringify :: "json \<Rightarrow> buffer option"
  json_parse :: "buffer \<Rightarrow> json option"

text \<open>
  The mutable world: the file system as a map from paths to contents, the paths on which
  \<^verbatim>\<open>writeFileSync\<close> throws, the existing paths that \<^verbatim>\<open>unlinkSync\<close> cannot remove (a
  directory, a file held open or protected: \<^verbatim>\<open>EISDIR\<close>, \<^verbatim>\<open>EBUSY\<close>, \<^verbatim>\<open>EPERM\<close>,
  \<^verbatim>\<open>EACCES\<close>), and the stream of bytes that \<^verbatim>\<open>crypto.randomBytes\<close> will deliver next.
  \<^verbatim>\<open>console.error\<close> is not modelled.
\<close>

record world =
  files :: "string \<rightharpoonup> buffer"
  write_denied :: "string \<Rightarrow> bool"
  unlink_denied :: "string \<Rightarrow> bool"
  entropy :: "nat \<Rightarrow> byte"

text \<open>What an \<^verbatim>\<open>ipcMain.handle\<close> callback gives the renderer: its promise resolves with a
  value, or rejects with the message of the error that escaped the callback.\<close>

datatype 'a ipc = Resolved 'a | Rejected string

section \<open>File system and randomness\<close>

definition enoent :: "string \<Rightarrow> string" where
  "enoent p = ''ENOENT: no such file or directory, open '' @ [CHR 0x27] @ p @ [CHR 0x27]"

definition eacces :: "string \<Rightarrow> string" where
  "eacces p = ''EACCES: permission denied, open '' @ [CHR 0x27] @ p @ [CHR 0x27]"

definition eperm :: "string \<Rightarrow> string" where
  "eperm p = ''EPERM: operation not permitted, unlink '' @ [CHR 0x27] @ p @ [CHR 0x27]"

definition existsSync :: "world \<Rightarrow> string \<Rightarrow> bool" where
  "existsSync w p = (files w p \<noteq> None)"

definition readFileSync :: "world \<Rightarrow> string \<Rightarrow> string + buffer" where
  "readFileSync w p = (case files w p of None \<Rightarrow> Inl (enoent p) | Some b \<Rightarrow> Inr b)"

definition writeFileSync :: "world \<Rightarrow> string \<Rightarrow> buffer \<Rightarrow> string + world" where
  "writeFileSync w p b =
     (if write_denied w p then Inl (eacces p)
      else Inr (w\<lparr>files := (files w)(p \<mapsto> b)\<rparr>))"

definition unlinkSync :: "world \<Rightarrow> string \<Rightarrow> string + world" where
  "unlinkSync w p =
     (if files w p = None then Inl (enoent p)
      else if unlink_denied w p then Inl (eperm p)
      else Inr (w\<lparr>files := (files w)(p := None)\<rparr>))"

definition randomBytes :: "nat \<Rightarrow> world \<Rightarrow> buffer \<times> world" where
  "randomBytes n w = (map (entropy w) [0..<n], w\<lparr>entropy := (\<lambda>i. entropy w (i + n))\<rparr>)"

text \<open>\<^verbatim>\<open>buf.subarray(start, end)\<close> and \<^verbatim>\<open>buf.subarray(start)\<close> for \<open>0 \<le> start \<le> end\<close>:
  both ends are clamped to the buffer's length.\<close>

definition subarray :: "nat \<Rightarrow> nat \<Rightarrow> buffer \<Rightarrow> buffer" where
  "subarray start end' b = take (end' - start) (drop start b)"

definition subarray_from :: "nat \<Rightarrow> buffer \<Rightarrow> buffer" where
  "subarray_from start b = drop start b"

section \<open>Envelope encryption helpers\<close>

text \<open>\<^verbatim>\<open>path.join(dir, name)\<close> for a directory and a plain file name.\<close>

definition join :: "string \<Rightarrow> string \<Rightarrow> string" where
  "join dir name = dir @ ''/'' @ name"

definition getKeyPath :: "host \<Rightarrow> string" where
  "getKeyPath H = join (userData H) ''master.key.enc''"

definition getDataPath :: "host \<Rightarrow> string" where
  "getDataPath H = join (userData H) ''user-data.bin''"

text \<open>The tail of \<^verbatim>\<open>getOrGenerateMasterKey\<close>: draw 32 random bytes, wrap their base64 text
  with the secret store and persist the wrap; \<open>None\<close> when wrapping or writing throws.\<close>

definition generateMasterKey :: "host \<Rightarrow> world \<Rightarrow> buffer option \<times> world" where
  "generateMasterKey H w =
     (let (newKey, w1) = randomBytes 32 w;
          keyString = base64_encode H newKey
      in case encryptString H keyString of
           None \<Rightarrow> (None, w1)
         | Some encryptedKey \<Rightarrow>
             (case writeFileSync w1 (getKeyPath H) encryptedKey of
                Inl e \<Rightarrow> (None, w1)
              | Inr w2 \<Rightarrow> (Some newKey, w2)))"

definition getOrGenerateMasterKey :: "host \<Rightarrow> world \<Rightarrow> buffer option \<times> world" where
  "getOrGenerateMasterKey H w =
     (if \<not> isEncryptionAvailable H then (None, w)
      else if existsSync w (getKeyPath H) then
        (case readFileSync w (getKeyPath H) of
           Inl e \<Rightarrow> generateMasterKey H w
         | Inr encryptedKey \<Rightarrow>
             (case decryptString H encryptedKey of
                None \<Rightarrow> generateMasterKey H w
              | Some base64Key \<Rightarrow>
                  (let keyBuffer = base64_decode H base64Key
                   in if length keyBuffer \<noteq> 32 then generateMasterKey H w
                      else (Some keyBuffer, w))))
      else generateMasterKey H w)"

text \<open>\<^verbatim>\<open>encryptData\<close>: a 16-byte IV from \<^verbatim>\<open>randomBytes\<close>, then
  \<^verbatim>\<open>Buffer.concat([iv, authTag, encrypted])\<close>. \<open>None\<close> when the cipher or
  \<^verbatim>\<open>JSON.stringify\<close> throws; the random bytes are consumed either way.\<close>

definition encryptData :: "host \<Rightarrow> buffer \<Rightarrow> json \<Rightarrow> world \<Rightarrow> buffer option \<times> world" where
  "encryptData H masterKey jsonData w =
     (let (iv, w1) = randomBytes 16 w
      in case json_stringify H jsonData of
           None \<Rightarrow> (None, w1)
         | Some jsonStr \<Rightarrow>
             (case gcm_seal H masterKey iv jsonStr of
                None \<Rightarrow> (None, w1)
              | Some (encrypted, authTag) \<Rightarrow> (Some (iv @ authTag @ encrypted), w1)))"

text \<open>The three slices \<^verbatim>\<open>decryptData\<close> takes of the stored buffer.\<close>

definition envelope_iv :: "buffer \<Rightarrow> buffer" where
  "envelope_iv fileBuffer = subarray 0 16 fileBuffer"

definition envelope_authTag :: "buffer \<Rightarrow> buffer" where
  "envelope_authTag fileBuffer = subarray 16 32 fileBuffer"

definition envelope_encrypted :: "buffer \<Rightarrow> buffer" where
  "envelope_encrypted fileBuffer = subarray_from 32 fileBuffer"

text \<open>\<^verbatim>\<open>decryptData\<close>: \<open>None\<close> when the decipher or \<^verbatim>\<open>JSON.parse\<close> throws.\<close>

definition decryptData :: "host \<Rightarrow> buffer \<Rightarrow> buffer \<Rightarrow> json option" where
  "decryptData H masterKey fileBuffer =
     (let iv = envelope_iv fileBuffer;
          authTag = envelope_authTag fileBuffer;
          encrypted = envelope_encrypted fileBuffer
      in case gcm_open H masterKey iv authTag encrypted of
           None \<Rightarrow> None
         | Some decrypted \<Rightarrow> json_parse H decrypted)"

section \<open>Credential handlers\<close>

text \<open>\<^verbatim>\<open>auth:save-credentials\<close>.\<close>

definition save_credentials :: "host \<Rightarrow> json \<Rightarrow> world \<Rightarrow> bool ipc \<times> world" where
  "save_credentials H data w =
     (case getOrGenerateMasterKey H w of
        (None, w1) \<Rightarrow> (Resolved False, w1)
      | (Some masterKey, w1) \<Rightarrow>
          (case encryptData H masterKey data w1 of
             (None, w2) \<Rightarrow> (Resolved False, w2)
           | (Some encryptedBuffer, w2) \<Rightarrow>
               (case writeFileSync w2 (getDataPath H) encryptedBuffer of
                  Inl e \<Rightarrow> (Resolved False, w2)
                | Inr w3 \<Rightarrow> (Resolved True, w3))))"

text \<open>\<^verbatim>\<open>auth:load-credentials\<close>. Every early return and the \<^verbatim>\<open>catch\<close> return \<^verbatim>\<open>null\<close>.\<close>

definition load_credentials :: "host \<Rightarrow> world \<Rightarrow> json ipc \<times> world" where
  "load_credentials H w =
     (if \<not> existsSync w (getDataPath H) then (Resolved JNull, w)
      else
        (case getOrGenerateMasterKey H w of
           (None, w1) \<Rightarrow> (Resolved JNull, w1)
         | (Some masterKey, w1) \<Rightarrow>
             (case readFileSync w1 (getDataPath H) of
                Inl e \<Rightarrow> (Resolved JNull, w1)
              | Inr fileBuffer \<Rightarrow>
                  (case decryptData H masterKey fileBuffer of
                     None \<Rightarrow> (Resolved JNull, w1)
                   | Some v \<Rightarrow> (Resolved v, w1)))))"

text \<open>\<^verbatim>\<open>auth:clear-credentials\<close>. \<^verbatim>\<open>unlinkSync\<close> is not inside a \<^verbatim>\<open>try\<close>: an error of it
  would reject the invocation.\<close>

definition clear_credentials :: "host \<Rightarrow> world \<Rightarrow> bool ipc \<times> world" where
  "clear_credentials H w =
     (if existsSync w (getDataPath H) then
        (case unlinkSync w (getDataPath H) of
           Inl e \<Rightarrow> (Rejected e, w)
         | Inr w1 \<Rightarrow> (Resolved True, w1))
      else (Resolved True, w))"

section \<open>The signing pipeline\<close>

text \<open>
  The arguments of \<^verbatim>\<open>sign-pdf\<close> as the renderer's \<^verbatim>\<open>signDocument\<close> sends them. The
  rectangle fields \<^verbatim>\<open>x\<close>, \<^verbatim>\<open>y\<close>, \<^verbatim>\<open>width\<close>, \<^verbatim>\<open>height\<close> and the field \<^verbatim>\<open>text\<close> are
  renamed (\<open>rect_x\<close>, ..., \<open>labelText\<close>). JavaScript numbers are modelled by reals; a
  field the handler only reads through \<^verbatim>\<open>||\<close> is modelled by its type's falsy value when
  it is \<^verbatim>\<open>undefined\<close>, since \<^verbatim>\<open>||\<close> treats both alike.
\<close>

record sign_args =
  filePath :: string
  certPath :: string
  password :: string
  pageIndex :: int
  rect_x :: real
  rect_y :: real
  rect_width :: real
  rect_height :: real
  labelText :: string
  fontSize :: real
  dateText :: string

record draw_options =
  draw_x :: real
  draw_y :: real
  draw_size :: real
  draw_maxWidth :: real

text \<open>
  The PDF libraries over an abstract document type. A function that can throw returns
  \<open>Inl\<close> with the error's message.
  \<^item> \<open>pdf_load\<close>: \<^verbatim>\<open>PDFDocument.load\<close>.
  \<^item> \<open>pageHeights\<close>: \<^verbatim>\<open>getPages()\<close> with \<^verbatim>\<open>getSize().height\<close> of each page.
  \<^item> \<open>embedFont\<close>: \<^verbatim>\<open>embedFont(StandardFonts.Helvetica)\<close>.
  \<^item> \<open>drawText doc i s opts\<close>: \<^verbatim>\<open>drawText\<close> on page \<open>i\<close>, in black Helvetica.
  \<^item> \<open>pdf_save\<close>: \<^verbatim>\<open>save({ useObjectStreams: false })\<close>.
  \<^item> \<open>plainAddPlaceholder\<close>: the call with the handler's fixed reason, location, name,
    contact info and signature length 16192.
  \<^item> \<open>p12_sign pdf p12 passphrase\<close>: \<^verbatim>\<open>new P12Signer(p12, { passphrase })\<close> and
    \<^verbatim>\<open>new SignPdf().sign(pdf, signer)\<close>.
\<close>

record 'doc pdf_lib =
  pdf_load :: "buffer \<Rightarrow> string + 'doc"
  pageHeights :: "'doc \<Rightarrow> real list"
  embedFont :: "'doc \<Rightarrow> string + 'doc"
  drawText :: "'doc \<Rightarrow> nat \<Rightarrow> string \<Rightarrow> draw_options \<Rightarrow> string + 'doc"
  pdf_save :: "'doc \<Rightarrow> string + buffer"
  plainAddPlaceholder :: "buffer \<Rightarrow> string + buffer"
  p12_sign :: "buffer \<Rightarrow> buffer \<Rightarrow> string \<Rightarrow> string + buffer"

text \<open>The states of the pipeline; the state reached when an error is thrown is recorded
  beside the error's message.\<close>

datatype stage = Idle | AnnotationApplied | PlaceholderReserved | Signed | Written

datatype sign_result = Success string | Failure string

text \<open>\<^verbatim>\<open>a || b\<close> on strings and on numbers.\<close>

definition or_string :: "string \<Rightarrow> string \<Rightarrow> string" where
  "or_string a b = (if a = [] then b else a)"

definition or_number :: "real \<Rightarrow> real \<Rightarrow> real" where
  "or_number a b = (if a = 0 then b else a)"

text \<open>The message of the \<^verbatim>\<open>TypeError\<close> that \<^verbatim>\<open>page.getSize()\<close> throws when
  \<^verbatim>\<open>pages[pageIndex]\<close> is \<^verbatim>\<open>undefined\<close>.\<close>

definition getSize_of_undefined :: string where
  "getSize_of_undefined =
     ''Cannot read properties of undefined (reading '' @ [CHR 0x27] @ ''getSize'' @ [CHR 0x27] @ '')''"

text \<open>\<^verbatim>\<open>filePath.replace(/(\.pdf)$/i, '_signed.pdf')\<close>: the pattern matches the last four
  characters when they are \<^verbatim>\<open>.pdf\<close> in any letter case; otherwise \<^verbatim>\<open>replace\<close> returns the
  string as it is.\<close>

definition matches_dot_pdf :: "string \<Rightarrow> bool" where
  "matches_dot_pdf s =
     (case s of
        [c0, c1, c2, c3] \<Rightarrow>
          c0 = CHR ''.'' \<and> (c1 = CHR ''p'' \<or> c1 = CHR ''P'')
          \<and> (c2 = CHR ''d'' \<or> c2 = CHR ''D'') \<and> (c3 = CHR ''f'' \<or> c3 = CHR ''F'')
      | _ \<Rightarrow> False)"

definition ends_with_pdf :: "string \<Rightarrow> bool" where
  "ends_with_pdf p = (4 \<le> length p \<and> matches_dot_pdf (drop (length p - 4) p))"

definition outputPath :: "string \<Rightarrow> string" where
  "outputPath p =
     (if ends_with_pdf p then take (length p - 4) p @ ''_signed.pdf'' else p)"

text \<open>The drawing block of the handler, from \<^verbatim>\<open>page.getSize()\<close> to the last
  \<^verbatim>\<open>drawText\<close>, for a page index already known to be in range.\<close>

definition annotate :: "'doc pdf_lib \<Rightarrow> 'doc \<Rightarrow> nat \<Rightarrow> sign_args \<Rightarrow> string + 'doc" where
  "annotate L pdfDoc i a =
     (let pdfPageHeight = pageHeights L pdfDoc ! i;
          pdfY = pdfPageHeight - rect_y a - rect_height a
      in case embedFont L pdfDoc of
           Inl e \<Rightarrow> Inl e
         | Inr doc1 \<Rightarrow>
             (let signatureName = or_string (labelText a) ''Digitally Signed'';
                  signatureDate = or_string (dateText a) [];
                  nameSize = or_number (fontSize a) 14;
                  centerY = pdfY + rect_height a / 2
              in if signatureDate \<noteq> [] then
                   (let dateSize = nameSize * 0.75;
                        lineHeight = nameSize * 1.2;
                        totalBlockHeight = nameSize + dateSize + 2;
                        startY = centerY + totalBlockHeight / 4
                    in case drawText L doc1 i signatureName
                              \<lparr>draw_x = rect_x a + 2, draw_y = startY, draw_size = nameSize,
                               draw_maxWidth = rect_width a - 4\<rparr> of
                         Inl e \<Rightarrow> Inl e
                       | Inr doc2 \<Rightarrow>
                           drawText L doc2 i signatureDate
                             \<lparr>draw_x = rect_x a + 2, draw_y = startY - lineHeight,
                              draw_size = dateSize, draw_maxWidth = rect_width a - 4\<rparr>)
                 else
                   drawText L doc1 i signatureName
                     \<lparr>draw_x = rect_x a + 2, draw_y = centerY - nameSize / 3,
                      draw_size = nameSize, draw_maxWidth = rect_width a - 4\<rparr>))"

text \<open>From \<^verbatim>\<open>pdfDoc.save\<close> to \<^verbatim>\<open>writeFileSync\<close>: the part of the \<^verbatim>\<open>try\<close> block after the
  annotation.\<close>

definition sign_and_write ::
  "'doc pdf_lib \<Rightarrow> 'doc \<Rightarrow> sign_args \<Rightarrow> world \<Rightarrow> ((stage \<times> string) + string) \<times> world" where
  "sign_and_write L doc a w =
     (case pdf_save L doc of
        Inl e \<Rightarrow> (Inl (AnnotationApplied, e), w)
      | Inr modifiedPdfBuffer \<Rightarrow>
          (case plainAddPlaceholder L modifiedPdfBuffer of
             Inl e \<Rightarrow> (Inl (AnnotationApplied, e), w)
           | Inr pdfWithPlaceholder \<Rightarrow>
               if \<not> existsSync w (certPath a)
               then (Inl (PlaceholderReserved, ''Certificate file not found''), w)
               else
                 (case readFileSync w (certPath a) of
                    Inl e \<Rightarrow> (Inl (PlaceholderReserved, e), w)
                  | Inr p12Buffer \<Rightarrow>
                      (case p12_sign L pdfWithPlaceholder p12Buffer (or_string (password a) []) of
                         Inl e \<Rightarrow> (Inl (PlaceholderReserved, e), w)
                       | Inr signedPdf \<Rightarrow>
                           (case writeFileSync w (outputPath (filePath a)) signedPdf of
                              Inl e \<Rightarrow> (Inl (Signed, e), w)
                            | Inr w1 \<Rightarrow> (Inr (outputPath (filePath a)), w1))))))"

text \<open>The \<^verbatim>\<open>try\<close> block of \<^verbatim>\<open>sign-pdf\<close>: \<open>Inl\<close> is the thrown error with the state reached,
  \<open>Inr\<close> the output path.\<close>

definition sign_pdf_try ::
  "'doc pdf_lib \<Rightarrow> sign_args \<Rightarrow> world \<Rightarrow> ((stage \<times> string) + string) \<times> world" where
  "sign_pdf_try L a w =
     (case readFileSync w (filePath a) of
        Inl e \<Rightarrow> (Inl (Idle, e), w)
      | Inr pdfBuffer \<Rightarrow>
          (case pdf_load L pdfBuffer of
             Inl e \<Rightarrow> (Inl (Idle, e), w)
           | Inr pdfDoc \<Rightarrow>
               if pageIndex a < 0 \<or> int (length (pageHeights L pdfDoc)) \<le> pageIndex a
               then (Inl (Idle, getSize_of_undefined), w)
               else
                 (case annotate L pdfDoc (nat (pageIndex a)) a of
                    Inl e \<Rightarrow> (Inl (Idle, e), w)
                  | Inr doc1 \<Rightarrow> sign_and_write L doc1 a w)))"

text \<open>The \<^verbatim>\<open>try\<close>/\<^verbatim>\<open>catch\<close> statement of the handler, for destructured arguments: the
  \<^verbatim>\<open>catch\<close> clause turns a thrown error into
  \<^verbatim>\<open>{ success: false, error: error.message || 'Unknown error' }\<close>.\<close>

definition sign_pdf :: "'doc pdf_lib \<Rightarrow> sign_args \<Rightarrow> world \<Rightarrow> sign_result ipc \<times> world" where
  "sign_pdf L a w =
     (case sign_pdf_try L a w of
        (Inl (st, msg), w1) \<Rightarrow> (Resolved (Failure (or_string msg ''Unknown error'')), w1)
      | (Inr path, w1) \<Rightarrow> (Resolved (Success path), w1))"

text \<open>What the renderer can pass as \<^verbatim>\<open>args\<close>: nothing (\<^verbatim>\<open>undefined\<close>), \<^verbatim>\<open>null\<close>, or an
  object.\<close>

datatype 'a js_arg = Undefined | Null | Object 'a

text \<open>The message of the \<^verbatim>\<open>TypeError\<close> raised by
  \<^verbatim>\<open>const { filePath, ... } = args\<close> when \<^verbatim>\<open>args\<close> is \<^verbatim>\<open>undefined\<close> or \<^verbatim>\<open>null\<close>.\<close>

definition cannot_destructure :: "string \<Rightarrow> string" where
  "cannot_destructure v =
     ''Cannot destructure property '' @ [CHR 0x27] @ ''filePath'' @ [CHR 0x27] @ '' of ''
     @ [CHR 0x27] @ ''args'' @ [CHR 0x27] @ '' as it is '' @ v @ ''.''"

text \<open>The whole \<^verbatim>\<open>sign-pdf\<close> callback. The destructuring of \<^verbatim>\<open>args\<close> stands before the
  \<^verbatim>\<open>try\<close>: its error escapes the callback and the invocation rejects.\<close>

definition sign_pdf_handler ::
  "'doc pdf_lib \<Rightarrow> sign_args js_arg \<Rightarrow> world \<Rightarrow> sign_result ipc \<times> world" where
  "sign_pdf_handler L args w =
     (case args of
        Undefined \<Rightarrow> (Rejected (cannot_destructure ''undefined''), w)
      | Null \<Rightarrow> (Rejected (cannot_destructure ''null''), w)
      | Object a \<Rightarrow> sign_pdf L a w)"

text \<open>\<^verbatim>\<open>read-file-buffer\<close>, the handler that rethrows what it catches.\<close>

definition read_file_buffer :: "string \<Rightarrow> world \<Rightarrow> buffer ipc \<times> world" where
  "read_file_buffer p w =
     (case readFileSync w p of Inl e \<Rightarrow> (Rejected e, w) | Inr b \<Rightarrow> (Resolved b, w))"

section \<open>Library contracts\<close>

text \<open>
  What the properties below require of the libraries. Each is a statement about the
  library alone.
  \<^item> \<open>aead_correct\<close>: with a 32-byte key and a 16-byte IV the cipher does not throw, its tag
    has 16 bytes, and the decipher returns the plaintext.
  \<^item> \<open>aead_tag16\<close>: \<^verbatim>\<open>getAuthTag\<close> returns 16 bytes (the default tag length of GCM).
  \<^item> \<open>aead_length_preserving\<close>: GCM is a stream mode, the plaintext is as long as the
    ciphertext.
  \<^item> \<open>one_bit_apart\<close>: two buffers of the same length that differ in exactly one bit.
  \<^item> \<open>aead_tamper_evident\<close>: the decipher throws when one bit of the IV, of the tag or of
    the ciphertext of a sealed message has been changed.
  \<^item> \<open>json_serializable\<close>: the value survives \<^verbatim>\<open>JSON.parse(JSON.stringify(v))\<close>.
  \<^item> \<open>secret_store_roundtrip\<close>, \<open>base64_roundtrip\<close>: unwrapping a wrap and decoding an
    encoding give the original back.
\<close>

definition aead_correct :: "host \<Rightarrow> bool" where
  "aead_correct H \<longleftrightarrow>
     (\<forall>k iv pt. length k = 32 \<and> length iv = 16 \<longrightarrow>
        (\<exists>ct tag. gcm_seal H k iv pt = Some (ct, tag) \<and> length tag = 16
                  \<and> gcm_open H k iv tag ct = Some pt))"

definition aead_tag16 :: "host \<Rightarrow> bool" where
  "aead_tag16 H \<longleftrightarrow>
     (\<forall>k iv pt ct tag. gcm_seal H k iv pt = Some (ct, tag) \<longrightarrow> length tag = 16)"

definition aead_length_preserving :: "host \<Rightarrow> bool" where
  "aead_length_preserving H \<longleftrightarrow>
     (\<forall>k iv tag ct pt. gcm_open H k iv tag ct = Some pt \<longrightarrow> length pt = length ct)"

definition flip_bit_at :: "nat \<Rightarrow> nat \<Rightarrow> buffer \<Rightarrow> buffer" where
  "flip_bit_at i j b = b[i := flip_bit j (b ! i)]"

definition one_bit_apart :: "buffer \<Rightarrow> buffer \<Rightarrow> bool" where
  "one_bit_apart a b \<longleftrightarrow>
     (\<exists>i \<in> set [0..<length a]. \<exists>j \<in> set [0..<8]. b = flip_bit_at i j a)"

definition aead_tamper_evident :: "host \<Rightarrow> bool" where
  "aead_tamper_evident H \<longleftrightarrow>
     (\<forall>k iv pt ct tag. gcm_seal H k iv pt = Some (ct, tag) \<longrightarrow>
        (\<forall>iv'. one_bit_apart iv iv' \<longrightarrow> gcm_open H k iv' tag ct = None)
        \<and> (\<forall>tag'. one_bit_apart tag tag' \<longrightarrow> gcm_open H k iv tag' ct = None)
        \<and> (\<forall>ct'. one_bit_apart ct ct' \<longrightarrow> gcm_open H k iv tag ct' = None))"

definition json_serializable :: "host \<Rightarrow> json \<Rightarrow> bool" where
  "json_serializable H v \<longleftrightarrow>
     (case json_stringify H v of None \<Rightarrow> False | Some s \<Rightarrow> json_parse H s = Some v)"

definition secret_store_roundtrip :: "host \<Rightarrow> bool" where
  "secret_store_roundtrip H \<longleftrightarrow>
     (\<forall>s b. encryptString H s = Some b \<longrightarrow> decryptString H b = Some s)"

definition base64_roundtrip :: "host \<Rightarrow> bool" where
  "base64_roundtrip H \<longleftrightarrow> (\<forall>b. base64_decode H (base64_encode H b) = b)"

section \<open>The layout as the specification words it\<close>

text \<open>The persisted-files section of the specification gives the vault file as
  \<^verbatim>\<open>nonce(12B) || tag(16B) || ciphertext\<close>. These three slices follow those words, to be
  compared with the slices \<open>envelope_iv\<close>, \<open>envelope_authTag\<close> and \<open>envelope_encrypted\<close>
  that the code takes.\<close>

definition spec_nonce :: "buffer \<Rightarrow> buffer" where
  "spec_nonce env = take 12 env"

definition spec_tag :: "buffer \<Rightarrow> buffer" where
  "spec_tag env = take 16 (drop 12 env)"

definition spec_ciphertext :: "buffer \<Rightarrow> buffer" where
  "spec_ciphertext env = drop 28 env"

text \<open>The specification's error taxonomy names a kind \<^verbatim>\<open>InvalidPage\<close> for a page index
  out of range. The handler's result carries only a message; this is the message such a
  kind would be reported under.\<close>

definition spec_InvalidPage :: string where
  "spec_InvalidPage = ''InvalidPage''"

section \<open>A reference instance of the libraries\<close>

text \<open>
  A small instance of every library interface, on which the contracts above hold and the
  handlers can be run: a checksum "cipher", a secret store that prefixes a version
  marker, a byte-per-character text encoding, a JSON codec that knows one credential
  record, and a PDF library whose documents are a list of page heights with the labels
  drawn on them. It stands for no real library; it shows that the contracts can be met and
  gives the handlers something to run on.
\<close>

definition xor_all :: "buffer \<Rightarrow> byte" where
  "xor_all b = foldr (XOR) b 0"

definition demo_tag :: "buffer \<Rightarrow> buffer \<Rightarrow> buffer \<Rightarrow> buffer" where
  "demo_tag k iv ct = replicate 15 0 @ [xor_all (k @ iv @ ct)]"

definition demo_mask :: "buffer \<Rightarrow> buffer" where
  "demo_mask b = map (\<lambda>x. x XOR 0x5A) b"

definition demo_seal :: "buffer \<Rightarrow> buffer \<Rightarrow> buffer \<Rightarrow> (buffer \<times> buffer) option" where
  "demo_seal k iv pt =
     (if length k = 32 \<and> iv \<noteq> [] then Some (demo_mask pt, demo_tag k iv (demo_mask pt))
      else None)"

definition demo_open :: "buffer \<Rightarrow> buffer \<Rightarrow> buffer \<Rightarrow> buffer \<Rightarrow> buffer option" where
  "demo_open k iv tag ct =
     (if length k = 32 \<and> iv \<noteq> [] \<and> tag = demo_tag k iv ct then Some (demo_mask ct)
      else None)"

definition bytes_of :: "string \<Rightarrow> buffer" where
  "bytes_of s = map (\<lambda>c. of_nat (of_char c)) s"

definition string_of :: "buffer \<Rightarrow> string" where
  "string_of b = map (\<lambda>x. char_of (unat x)) b"

definition demo_wrap :: "string \<Rightarrow> buffer option" where
  "demo_wrap s = Some (bytes_of ''v1'' @ bytes_of s)"

definition demo_unwrap :: "buffer \<Rightarrow> string option" where
  "demo_unwrap b =
     (if take 2 b = bytes_of ''v1'' then Some (string_of (drop 2 b)) else None)"

definition demo_record :: json where
  "demo_record = JObj [(''certPath'', JStr ''/a.p12''), (''password'', JStr ''pw'')]"

definition demo_record_text :: buffer where
  "demo_record_text =
     bytes_of (''{'' @ [CHR 0x22] @ ''certPath'' @ [CHR 0x22] @ '':'' @ [CHR 0x22] @ ''/a.p12''
               @ [CHR 0x22] @ '','' @ [CHR 0x22] @ ''password'' @ [CHR 0x22] @ '':''
               @ [CHR 0x22] @ ''pw'' @ [CHR 0x22] @ ''}'')"

definition demo_stringify :: "json \<Rightarrow> buffer option" where
  "demo_stringify v =
     (if v = demo_record then Some demo_record_text
      else if v = JNull then Some (bytes_of ''null'')
      else None)"

definition demo_parse :: "buffer \<Rightarrow> json option" where
  "demo_parse b =
     (if b = demo_record_text then Some demo_record
      else if b = bytes_of ''null'' then Some JNull
      else None)"

definition demo_host :: host where
  "demo_host =
     \<lparr>userData = ''/home/u/.config/pdf-signer'',
      isEncryptionAvailable = True,
      encryptString = demo_wrap,
      decryptString = demo_unwrap,
      base64_encode = string_of,
      base64_decode = bytes_of,
      gcm_seal = demo_seal,
      gcm_open = demo_open,
      json_stringify = demo_stringify,
      json_parse = demo_parse\<rparr>"

definition demo_host_locked :: host where
  "demo_host_locked = demo_host\<lparr>isEncryptionAvailable := False\<rparr>"

definition demo_key :: buffer where
  "demo_key = replicate 32 7"

definition demo_world :: world where
  "demo_world =
     \<lparr>files = Map.empty, write_denied = (\<lambda>p. False), unlink_denied = (\<lambda>p. False),
      entropy = (\<lambda>i. of_nat i)\<rparr>"

text \<open>Documents of the reference PDF library: the page heights and the labels drawn so
  far. A file's first byte gives its number of pages; the empty file does not parse.\<close>

record demo_doc =
  heights :: "real list"
  labels :: "(nat \<times> string) list"

definition demo_pdf_load :: "buffer \<Rightarrow> string + demo_doc" where
  "demo_pdf_load b =
     (case b of
        [] \<Rightarrow> Inl ''No PDF header found''
      | n # rest \<Rightarrow> Inr \<lparr>heights = replicate (unat n) 842, labels = []\<rparr>)"

definition demo_drawText :: "demo_doc \<Rightarrow> nat \<Rightarrow> string \<Rightarrow> draw_options \<Rightarrow> string + demo_doc" where
  "demo_drawText d i s opts = Inr (d\<lparr>labels := labels d @ [(i, s)]\<rparr>)"

definition demo_pdf_save :: "demo_doc \<Rightarrow> string + buffer" where
  "demo_pdf_save d = Inr (of_nat (length (heights d)) # concat (map (bytes_of \<circ> snd) (labels d)))"

definition demo_p12_sign :: "buffer \<Rightarrow> buffer \<Rightarrow> string \<Rightarrow> string + buffer" where
  "demo_p12_sign pdf p12 passphrase =
     (if p12 = [] then Inl ''Failed to parse the certificate bundle''
      else if passphrase \<noteq> ''test'' then Inl ''Invalid password''
      else Inr (pdf @ p12))"

definition demo_pdf :: "demo_doc pdf_lib" where
  "demo_pdf =
     \<lparr>pdf_load = demo_pdf_load,
      pageHeights = heights,
      embedFont = Inr,
      drawText = demo_drawText,
      pdf_save = demo_pdf_save,
      plainAddPlaceholder = (\<lambda>b. Inr (b @ replicate 4 0)),
      p12_sign = demo_p12_sign\<rparr>"

definition demo_args :: sign_args where
  "demo_args =
     \<lparr>filePath = ''/docs/contract.pdf'', certPath = ''/a.p12'', password = ''test'',
      pageIndex = 0, rect_x = 50, rect_y = 50, rect_width = 200, rect_height = 70,
      labelText = ''Signature'', fontSize = 14, dateText = ''2024-01-01 10:00''\<rparr>"

definition demo_desk :: world where
  "demo_desk =
     demo_world\<lparr>files := [''/docs/contract.pdf'' \<mapsto> [1, 2, 3], ''/docs/contract'' \<mapsto> [1, 2, 3],
                          ''/docs/SCAN.PDF'' \<mapsto> [1], ''/a.p12'' \<mapsto> [9, 9]]\<rparr>"

text \<open>The envelope that \<^verbatim>\<open>encryptData\<close> produces for \<open>demo_record\<close> under
  \<open>demo_key\<close> in \<open>demo_world\<close>: 16 IV bytes, 16 tag bytes, 37 bytes of ciphertext.\<close>

definition demo_envelope :: buffer where
  "demo_envelope =
     [0, 1, 2, 3, 4, 5, 6, 7, 8, 9, 10, 11, 12, 13, 14, 15,
      0, 0, 0, 0, 0, 0, 0, 0, 0, 0, 0, 0, 0, 0, 0, 86,
      33, 120, 57, 63, 40, 46, 10, 59, 46, 50, 120, 96, 120, 117, 59, 116, 42, 107, 104,
      120, 118, 120, 42, 59, 41, 41, 45, 53, 40, 62, 120, 96, 120, 42, 45, 120, 39]"

text \<open>A world with a vault: the key file holds the wrap of \<open>demo_key\<close>, the data file
  holds \<open>demo_envelope\<close>. In the second world one bit of the data file has rotted.\<close>

definition demo_vault :: world where
  "demo_vault =
     demo_world\<lparr>files := [getKeyPath demo_host \<mapsto> bytes_of ''v1'' @ bytes_of (string_of demo_key),
                          getDataPath demo_host \<mapsto> demo_envelope]\<rparr>"

definition demo_vault_rotten :: world where
  "demo_vault_rotten =
     demo_vault\<lparr>files := (files demo_vault)(getDataPath demo_host \<mapsto> flip_bit_at 40 3 demo_envelope)\<rparr>"

text \<open>The same vault with a data file that cannot be removed.\<close>

definition demo_vault_pinned :: world where
  "demo_vault_pinned = demo_vault\<lparr>unlink_denied := (\<lambda>p. p = getDataPath demo_host)\<rparr>"

section \<open>Facts about the model\<close>

lemma randomBytes_length: "length (fst (randomBytes n w)) = n"
  by (simp add: randomBytes_def)

lemma randomBytes_files: "files (snd (randomBytes n w)) = files w"
  by (simp add: randomBytes_def)

lemma envelope_split:
  assumes "length iv = 16" and "length tag = 16"
  shows "envelope_iv (iv @ tag @ ct) = iv"
    and "envelope_authTag (iv @ tag @ ct) = tag"
    and "envelope_encrypted (iv @ tag @ ct) = ct"
  using assms
  by (simp_all add: envelope_iv_def envelope_authTag_def envelope_encrypted_def
      subarray_def subarray_from_def)

lemma envelope_join:
  "32 \<le> length fb \<Longrightarrow>
   envelope_iv fb @ envelope_authTag fb @ envelope_encrypted fb = fb"
proof -
  assume len: "32 \<le> length fb"
  have "take 16 fb @ take 16 (drop 16 fb) = take 32 fb"
    using take_add[of 16 16 fb] by simp
  then have "(take 16 fb @ take 16 (drop 16 fb)) @ drop 32 fb = fb"
    by simp
  then show ?thesis
    by (simp add: envelope_iv_def envelope_authTag_def envelope_encrypted_def
        subarray_def subarray_from_def)
qed

lemma encryptData_unfold:
  "encryptData H k p w =
     (case json_stringify H p of
        None \<Rightarrow> (None, snd (randomBytes 16 w))
      | Some s \<Rightarrow>
          (case gcm_seal H k (fst (randomBytes 16 w)) s of
             None \<Rightarrow> (None, snd (randomBytes 16 w))
           | Some (ct, tag) \<Rightarrow>
               (Some (fst (randomBytes 16 w) @ tag @ ct), snd (randomBytes 16 w))))"
  by (simp add: encryptData_def case_prod_beta)

lemma encryptData_Some:
  assumes "encryptData H k p w = (Some env, w')"
  obtains s ct tag where
    "json_stringify H p = Some s"
    "gcm_seal H k (fst (randomBytes 16 w)) s = Some (ct, tag)"
    "env = fst (randomBytes 16 w) @ tag @ ct"
    "w' = snd (randomBytes 16 w)"
  using assms
  by (auto simp: encryptData_unfold split: option.splits)

section \<open>Facts about the reference instance\<close>

lemma demo_mask_involution: "demo_mask (demo_mask b) = b"
  by (induction b) (simp_all add: demo_mask_def bit.xor_self ac_simps flip: xor.assoc)

lemma demo_aead_correct: "aead_correct demo_host"
  by (auto simp: aead_correct_def demo_host_def demo_seal_def demo_open_def
      demo_tag_def demo_mask_involution)

lemma demo_aead_tag16: "aead_tag16 demo_host"
  by (auto simp: aead_tag16_def demo_host_def demo_seal_def demo_tag_def split: if_splits)

lemma demo_aead_length_preserving: "aead_length_preserving demo_host"
  by (auto simp: aead_length_preserving_def demo_host_def demo_open_def demo_mask_def
      split: if_splits)

lemma demo_record_serializable: "json_serializable demo_host demo_record"
  by (simp add: json_serializable_def demo_host_def demo_stringify_def demo_parse_def)

lemma flip_bit_at_length: "length (flip_bit_at i j b) = length b"
  by (simp add: flip_bit_at_def)

lemma flip_bit_at_append:
  "flip_bit_at i j (a @ b) =
     (if i < length a then flip_bit_at i j a @ b else a @ flip_bit_at (i - length a) j b)"
  by (simp add: flip_bit_at_def list_update_append nth_append)

lemma one_bit_apartI:
  "i < length a \<Longrightarrow> j < 8 \<Longrightarrow> one_bit_apart a (flip_bit_at i j a)"
  unfolding one_bit_apart_def
  by (intro bexI[of _ i] bexI[of _ j]) simp_all

lemma one_bit_apartE:
  assumes "one_bit_apart a b"
  obtains i j where "i < length a" "j < 8" "b = flip_bit_at i j a"
  using assms unfolding one_bit_apart_def by auto

lemma flip_bit_byte_neq: "j < 8 \<Longrightarrow> flip_bit j (x::byte) \<noteq> x"
proof
  assume j: "j < 8" and e: "flip_bit j x = x"
  have "bit (flip_bit j x) j \<longleftrightarrow> \<not> bit x j" using j by (simp add: bit_flip_bit_iff)
  with e show False by simp
qed

lemma flip_bit_at_neq: "i < length b \<Longrightarrow> j < 8 \<Longrightarrow> flip_bit_at i j b \<noteq> b"
proof
  assume i: "i < length b" and j: "j < 8" and e: "flip_bit_at i j b = b"
  have "flip_bit_at i j b ! i = flip_bit j (b ! i)" using i by (simp add: flip_bit_at_def)
  with e flip_bit_byte_neq[OF j, of "b ! i"] show False by simp
qed

lemma xor_all_append: "xor_all (a @ b) = xor_all a XOR xor_all b"
  by (induction a) (simp_all add: xor_all_def ac_simps)

lemma xor_all_flip:
  "i < length b \<Longrightarrow> xor_all (flip_bit_at i j b) = flip_bit j (xor_all b)"
  unfolding xor_all_def flip_bit_at_def
proof (induction b arbitrary: i)
  case Nil then show ?case by simp
next
  case (Cons x xs)
  then show ?case
    by (cases i) (simp_all add: flip_bit_eq_xor ac_simps)
qed

lemma xor_all_flip_neq:
  assumes "i < length b" and "j < 8"
  shows "xor_all (flip_bit_at i j b) \<noteq> xor_all b"
  using xor_all_flip[OF assms(1), of j] flip_bit_byte_neq[OF assms(2), of "xor_all b"] by simp

lemma demo_tag_flip_neq:
  assumes "i < length (k @ iv @ ct)" and "j < 8"
    and "k' @ iv' @ ct' = flip_bit_at i j (k @ iv @ ct)"
  shows "demo_tag k' iv' ct' \<noteq> demo_tag k iv ct"
  using xor_all_flip_neq[OF assms(1,2)] assms(3) by (simp add: demo_tag_def)

lemma demo_aead_tamper_evident: "aead_tamper_evident demo_host"
  unfolding aead_tamper_evident_def
proof (intro allI impI conjI)
  fix k iv pt ct tag iv'
  assume seal: "gcm_seal demo_host k iv pt = Some (ct, tag)" and apart: "one_bit_apart iv iv'"
  from seal have tag: "tag = demo_tag k iv ct"
    by (auto simp: demo_host_def demo_seal_def split: if_splits)
  from apart obtain i j where ij: "i < length iv" "j < 8" "iv' = flip_bit_at i j iv"
    by (rule one_bit_apartE)
  have "k @ iv' @ ct = flip_bit_at (length k + i) j (k @ iv @ ct)"
    using ij by (simp add: flip_bit_at_append)
  with ij have "demo_tag k iv' ct \<noteq> demo_tag k iv ct"
    by (intro demo_tag_flip_neq[where i = "length k + i" and j = j]) simp_all
  with tag show "gcm_open demo_host k iv' tag ct = None"
    by (auto simp: demo_host_def demo_open_def)
next
  fix k iv pt ct tag tag'
  assume seal: "gcm_seal demo_host k iv pt = Some (ct, tag)" and apart: "one_bit_apart tag tag'"
  from seal have tag: "tag = demo_tag k iv ct"
    by (auto simp: demo_host_def demo_seal_def split: if_splits)
  from apart obtain i j where ij: "i < length tag" "j < 8" "tag' = flip_bit_at i j tag"
    by (rule one_bit_apartE)
  then have "tag' \<noteq> tag" by (simp add: flip_bit_at_neq)
  with tag show "gcm_open demo_host k iv tag' ct = None"
    by (auto simp: demo_host_def demo_open_def)
next
  fix k iv pt ct tag ct'
  assume seal: "gcm_seal demo_host k iv pt = Some (ct, tag)" and apart: "one_bit_apart ct ct'"
  from seal have tag: "tag = demo_tag k iv ct"
    by (auto simp: demo_host_def demo_seal_def split: if_splits)
  from apart obtain i j where ij: "i < length ct" "j < 8" "ct' = flip_bit_at i j ct"
    by (rule one_bit_apartE)
  have "k @ iv @ ct' = flip_bit_at (length k + length iv + i) j (k @ iv @ ct)"
    using ij by (simp add: flip_bit_at_append)
  with ij have "demo_tag k iv ct' \<noteq> demo_tag k iv ct"
    by (intro demo_tag_flip_neq[where i = "length k + length iv + i" and j = j]) simp_all
  with tag show "gcm_open demo_host k iv tag ct' = None"
    by (auto simp: demo_host_def demo_open_def)
qed

lemma decryptData_short:
  assumes "aead_length_preserving H" and "json_parse H [] = None" and "length fb \<le> 32"
  shows "decryptData H k fb = None"
proof (cases "gcm_open H k (envelope_iv fb) (envelope_authTag fb) (envelope_encrypted fb)")
  case None
  then show ?thesis by (simp add: decryptData_def)
next
  case (Some pt)
  have "envelope_encrypted fb = []"
    using assms(3) by (simp add: envelope_encrypted_def subarray_from_def)
  with Some assms(1) have "pt = []"
    unfolding aead_length_preserving_def by fastforce
  with Some assms(2) show ?thesis by (simp add: decryptData_def)
qed

lemma decryptData_flipped:
  assumes tev: "aead_tamper_evident H"
    and seal: "gcm_seal H k iv s = Some (ct, tag)"
    and iv16: "length iv = 16" and tag16: "length tag = 16"
    and i: "i < length (iv @ tag @ ct)" and j: "j < 8"
  shows "decryptData H k (flip_bit_at i j (iv @ tag @ ct)) = None"
proof -
  from tev seal have
    a: "\<And>iv'. one_bit_apart iv iv' \<Longrightarrow> gcm_open H k iv' tag ct = None" and
    b: "\<And>tag'. one_bit_apart tag tag' \<Longrightarrow> gcm_open H k iv tag' ct = None" and
    c: "\<And>ct'. one_bit_apart ct ct' \<Longrightarrow> gcm_open H k iv tag ct' = None"
    unfolding aead_tamper_evident_def by blast+
  consider "i < 16" | "16 \<le> i" "i < 32" | "32 \<le> i" by linarith
  then show ?thesis
  proof cases
    case 1
    then have e: "flip_bit_at i j (iv @ tag @ ct) = flip_bit_at i j iv @ tag @ ct"
      using iv16 by (simp add: flip_bit_at_append)
    have "length (flip_bit_at i j iv) = 16" by (simp add: flip_bit_at_length iv16)
    note sp = envelope_split[OF this tag16, of ct]
    have "one_bit_apart iv (flip_bit_at i j iv)" using 1 iv16 j by (simp add: one_bit_apartI)
    from a[OF this] show ?thesis by (simp add: decryptData_def e sp)
  next
    case 2
    then have lt: "i - 16 < 16" by linarith
    have e: "flip_bit_at i j (iv @ tag @ ct) = iv @ flip_bit_at (i - 16) j tag @ ct"
      using 2 lt iv16 tag16 by (simp add: flip_bit_at_append)
    have "length (flip_bit_at (i - 16) j tag) = 16" by (simp add: flip_bit_at_length tag16)
    note sp = envelope_split[OF iv16 this, of ct]
    have "one_bit_apart tag (flip_bit_at (i - 16) j tag)"
      using lt tag16 j by (simp add: one_bit_apartI)
    from b[OF this] show ?thesis by (simp add: decryptData_def e sp)
  next
    case 3
    then have ge: "\<not> i - 16 < 16" and sub: "i - 16 - 16 = i - 32" by linarith+
    have e: "flip_bit_at i j (iv @ tag @ ct) = iv @ tag @ flip_bit_at (i - 32) j ct"
      using 3 ge sub iv16 tag16 by (simp add: flip_bit_at_append)
    note sp = envelope_split[OF iv16 tag16, of "flip_bit_at (i - 32) j ct"]
    have "one_bit_apart ct (flip_bit_at (i - 32) j ct)"
      using 3 i iv16 tag16 j by (simp add: one_bit_apartI)
    from c[OF this] show ?thesis by (simp add: decryptData_def e sp)
  qed
qed

lemma demo_parse_empty: "json_parse demo_host [] = None"
  by (simp add: demo_host_def demo_parse_def demo_record_text_def bytes_of_def)

lemma demo_encrypt: "encryptData demo_host demo_key demo_record demo_world = (Some demo_envelope, snd (randomBytes 16 demo_world))"
  apply (simp add: encryptData_unfold randomBytes_def demo_world_def demo_host_def demo_stringify_def demo_seal_def demo_key_def demo_envelope_def)
  apply code_simp
  done

section \<open>The envelope cipher\<close>

text \<open>
  Claim C1. For every 32-byte master key \<open>k\<close> and every JSON-serializable record \<open>p\<close>,
  \<^verbatim>\<open>encryptData\<close> returns an envelope and \<^verbatim>\<open>decryptData\<close> of that envelope under the
  same key returns \<open>p\<close>, whatever bytes \<^verbatim>\<open>randomBytes\<close> delivers. The cipher is any
  that meets \<open>aead_correct\<close>.
\<close>

theorem encrypt_decrypt_roundtrip:
  assumes "aead_correct H" and "length k = 32" and "json_serializable H p"
  shows "\<exists>env w'. encryptData H k p w = (Some env, w') \<and> decryptData H k env = Some p"
proof -
  obtain s where s: "json_stringify H p = Some s" "json_parse H s = Some p"
    using assms(3) by (auto simp: json_serializable_def split: option.splits)
  define iv where "iv = fst (randomBytes 16 w)"
  have iv16: "length iv = 16" by (simp add: iv_def randomBytes_length)
  obtain ct tag where seal: "gcm_seal H k iv s = Some (ct, tag)" "length tag = 16"
      "gcm_open H k iv tag ct = Some s"
    using assms(1,2) iv16 unfolding aead_correct_def by blast
  have enc: "encryptData H k p w = (Some (iv @ tag @ ct), snd (randomBytes 16 w))"
    using s(1) seal(1) by (simp add: encryptData_unfold iv_def)
  have "decryptData H k (iv @ tag @ ct) = Some p"
    using envelope_split[OF iv16 seal(2), of ct] seal(3) s(2)
    by (simp add: decryptData_def)
  with enc show ?thesis by blast
qed

theorem encrypt_decrypt_roundtrip_witness:
  "length demo_key = 32 \<and> json_serializable demo_host demo_record
   \<and> (\<exists>env w'. encryptData demo_host demo_key demo_record demo_world = (Some env, w')
        \<and> decryptData demo_host demo_key env = Some demo_record)"
proof -
  have k: "length demo_key = 32" by (simp add: demo_key_def)
  show ?thesis
    using k demo_record_serializable
      encrypt_decrypt_roundtrip [OF demo_aead_correct k demo_record_serializable, of demo_world]
    by simp
qed

text \<open>
  Claim C2, as stated, fails: the claim gives the layout as a 12-byte nonce, a 16-byte tag
  and the ciphertext. On the envelope of \<open>demo_record\<close> the first 12 bytes are not the IV
  the cipher was given, and none of the three slices \<^verbatim>\<open>decryptData\<close> takes is the slice
  at the widths 12 and 16.
\<close>

theorem envelope_layout_12_counterexample:
  "fst (encryptData demo_host demo_key demo_record demo_world) = Some demo_envelope
   \<and> spec_nonce demo_envelope \<noteq> fst (randomBytes 16 demo_world)
   \<and> envelope_iv demo_envelope \<noteq> spec_nonce demo_envelope
   \<and> envelope_authTag demo_envelope \<noteq> spec_tag demo_envelope
   \<and> envelope_encrypted demo_envelope \<noteq> spec_ciphertext demo_envelope"
proof -
  have "length (spec_nonce demo_envelope) = 12"
    by (simp add: spec_nonce_def demo_envelope_def)
  moreover have "length (envelope_iv demo_envelope) = 16"
    by (simp add: envelope_iv_def subarray_def demo_envelope_def)
  moreover have "length (envelope_encrypted demo_envelope) = 37"
    by (simp add: envelope_encrypted_def subarray_from_def demo_envelope_def)
  moreover have "length (spec_ciphertext demo_envelope) = 41"
    by (simp add: spec_ciphertext_def demo_envelope_def)
  moreover have "envelope_authTag demo_envelope ! 15 = 86"
    by (simp add: envelope_authTag_def subarray_def demo_envelope_def)
  moreover have "spec_tag demo_envelope ! 15 = 0"
    by (simp add: spec_tag_def demo_envelope_def)
  ultimately show ?thesis
    using demo_encrypt randomBytes_length[of 16 demo_world] by auto
qed

text \<open>
  Claim C2, amended. The envelope \<^verbatim>\<open>encryptData\<close> returns is the 16 bytes of
  \<^verbatim>\<open>randomBytes(16)\<close> used as IV, followed by the 16-byte tag, followed by the ciphertext,
  and \<^verbatim>\<open>decryptData\<close> splits a buffer at exactly those widths: bytes 0 to 15, bytes 16
  to 31, and the rest.
\<close>

theorem envelope_layout_16:
  assumes "aead_tag16 H" and "encryptData H k p w = (Some env, w')"
  shows "\<exists>s ct tag.
           json_stringify H p = Some s
           \<and> gcm_seal H k (fst (randomBytes 16 w)) s = Some (ct, tag)
           \<and> env = fst (randomBytes 16 w) @ tag @ ct
           \<and> length (fst (randomBytes 16 w)) = 16 \<and> length tag = 16
           \<and> envelope_iv env = fst (randomBytes 16 w)
           \<and> envelope_authTag env = tag
           \<and> envelope_encrypted env = ct
           \<and> envelope_iv env = take 16 env
           \<and> envelope_authTag env = take 16 (drop 16 env)
           \<and> envelope_encrypted env = drop 32 env"
proof -
  from assms(2) obtain s ct tag where
    s: "json_stringify H p = Some s" and
    seal: "gcm_seal H k (fst (randomBytes 16 w)) s = Some (ct, tag)" and
    env: "env = fst (randomBytes 16 w) @ tag @ ct"
    by (rule encryptData_Some)
  from seal assms(1) have tag16: "length tag = 16" unfolding aead_tag16_def by blast
  note sp = envelope_split[OF randomBytes_length tag16, of w ct]
  have "envelope_iv env = take 16 env" "envelope_authTag env = take 16 (drop 16 env)"
    "envelope_encrypted env = drop 32 env"
    by (simp_all add: envelope_iv_def envelope_authTag_def envelope_encrypted_def
        subarray_def subarray_from_def)
  with s seal env tag16 sp randomBytes_length[of 16 w] show ?thesis by blast
qed

theorem envelope_layout_16_witness:
  "encryptData demo_host demo_key demo_record demo_world
     = (Some demo_envelope, snd (randomBytes 16 demo_world))
   \<and> envelope_iv demo_envelope = fst (randomBytes 16 demo_world)
   \<and> length (envelope_iv demo_envelope) = 16
   \<and> length (envelope_authTag demo_envelope) = 16
   \<and> envelope_iv demo_envelope @ envelope_authTag demo_envelope
        @ envelope_encrypted demo_envelope = demo_envelope"
proof -
  from envelope_layout_16 [OF demo_aead_tag16 demo_encrypt]
  obtain ct tag where
    "demo_envelope = fst (randomBytes 16 demo_world) @ tag @ ct"
    "length tag = 16"
    "envelope_iv demo_envelope = fst (randomBytes 16 demo_world)"
    "envelope_authTag demo_envelope = tag"
    "envelope_encrypted demo_envelope = ct"
    by blast
  with demo_encrypt randomBytes_length[of 16 demo_world] show ?thesis by simp
qed

text \<open>
  Claim C3. Changing any single bit of an envelope produced by \<^verbatim>\<open>encryptData\<close>, in the
  IV, the tag or the ciphertext, makes \<^verbatim>\<open>decryptData\<close> under the same key throw; so
  does every buffer too short to hold ciphertext (at most 32 bytes). No plaintext is
  returned in either case. The proof shows that every byte of the stored buffer lands in
  exactly one of the three inputs of the decipher; that the decipher rejects a changed
  input is the cipher's contract \<open>aead_tamper_evident\<close>.
\<close>

theorem tampered_envelope_rejected:
  assumes "aead_tag16 H" and "aead_tamper_evident H" and "aead_length_preserving H"
    and "json_parse H [] = None"
    and "encryptData H k p w = (Some env, w')"
  shows "(\<forall>i j. i < length env \<and> j < 8 \<longrightarrow> decryptData H k (flip_bit_at i j env) = None)
       \<and> (\<forall>fb. length fb \<le> 32 \<longrightarrow> decryptData H k fb = None)"
proof (intro conjI allI impI)
  fix i j :: nat
  assume ij: "i < length env \<and> j < 8"
  from assms(5) obtain s ct tag where
    seal: "gcm_seal H k (fst (randomBytes 16 w)) s = Some (ct, tag)" and
    env: "env = fst (randomBytes 16 w) @ tag @ ct"
    by (rule encryptData_Some)
  from seal assms(1) have tag16: "length tag = 16" unfolding aead_tag16_def by blast
  show "decryptData H k (flip_bit_at i j env) = None"
    unfolding env
    using decryptData_flipped[OF assms(2) seal randomBytes_length tag16] ij env by simp
next
  fix fb :: buffer
  assume "length fb \<le> 32"
  with assms(3,4) show "decryptData H k fb = None" by (rule decryptData_short)
qed

theorem tampered_envelope_rejected_witness:
  "encryptData demo_host demo_key demo_record demo_world
     = (Some demo_envelope, snd (randomBytes 16 demo_world))
   \<and> decryptData demo_host demo_key (flip_bit_at 40 3 demo_envelope) = None
   \<and> decryptData demo_host demo_key (take 20 demo_envelope) = None"
proof -
  have len: "length demo_envelope = 69" by (simp add: demo_envelope_def)
  show ?thesis
    using tampered_envelope_rejected [OF demo_aead_tag16 demo_aead_tamper_evident
        demo_aead_length_preserving demo_parse_empty demo_encrypt] len demo_encrypt
    by simp
qed

section \<open>The credential vault\<close>

lemma key_path_neq_data_path: "getKeyPath H \<noteq> getDataPath H"
  by (simp add: getKeyPath_def getDataPath_def join_def)

lemma generateMasterKey_unfold:
  "generateMasterKey H w =
     (case encryptString H (base64_encode H (fst (randomBytes 32 w))) of
        None \<Rightarrow> (None, snd (randomBytes 32 w))
      | Some encryptedKey \<Rightarrow>
          (if write_denied w (getKeyPath H) then (None, snd (randomBytes 32 w))
           else (Some (fst (randomBytes 32 w)),
                 (snd (randomBytes 32 w))
                   \<lparr>files := (files w)(getKeyPath H \<mapsto> encryptedKey)\<rparr>)))"
  by (simp add: generateMasterKey_def writeFileSync_def randomBytes_def split: option.splits)

lemma generateMasterKey_None_files:
  "generateMasterKey H w = (None, w1) \<Longrightarrow> files w1 = files w"
  by (auto simp: generateMasterKey_unfold randomBytes_def split: option.splits if_splits)

lemma generateMasterKey_other_files:
  "generateMasterKey H w = (r, w1) \<Longrightarrow> p \<noteq> getKeyPath H \<Longrightarrow> files w1 p = files w p"
  by (auto simp: generateMasterKey_unfold randomBytes_def split: option.splits if_splits)

lemma generateMasterKey_Some:
  assumes "generateMasterKey H w = (Some key, w1)"
  shows "length key = 32"
    and "\<exists>blob. encryptString H (base64_encode H key) = Some blob
                \<and> files w1 (getKeyPath H) = Some blob"
  using assms
  by (auto simp: generateMasterKey_unfold randomBytes_def split: option.splits if_splits)

lemma getOrGenerateMasterKey_cases:
  assumes "getOrGenerateMasterKey H w = (r, w1)"
  shows "(r = None \<and> w1 = w) \<or> generateMasterKey H w = (r, w1)
         \<or> (\<exists>key. r = Some key \<and> w1 = w \<and> length key = 32)"
  using assms
  by (auto simp: getOrGenerateMasterKey_def Let_def split: if_splits sum.splits option.splits)

lemma getOrGenerateMasterKey_None_files:
  "getOrGenerateMasterKey H w = (None, w1) \<Longrightarrow> files w1 = files w"
  using getOrGenerateMasterKey_cases[of H w None w1] generateMasterKey_None_files[of H w w1]
  by auto

lemma getOrGenerateMasterKey_other_files:
  assumes "getOrGenerateMasterKey H w = (r, w1)" and "p \<noteq> getKeyPath H"
  shows "files w1 p = files w p"
  using getOrGenerateMasterKey_cases[OF assms(1)] generateMasterKey_other_files[of H w r w1 p]
    assms(2) by auto

lemma getOrGenerateMasterKey_locked:
  "\<not> isEncryptionAvailable H \<Longrightarrow> getOrGenerateMasterKey H w = (None, w)"
  by (simp add: getOrGenerateMasterKey_def)

lemma getOrGenerateMasterKey_stored:
  assumes "isEncryptionAvailable H" and "secret_store_roundtrip H" and "base64_roundtrip H"
    and "length key = 32" and "encryptString H (base64_encode H key) = Some blob"
    and "files w (getKeyPath H) = Some blob"
  shows "getOrGenerateMasterKey H w = (Some key, w)"
proof -
  have "decryptString H blob = Some (base64_encode H key)"
    using assms(2,5) unfolding secret_store_roundtrip_def by blast
  moreover have "base64_decode H (base64_encode H key) = key"
    using assms(3) unfolding base64_roundtrip_def by blast
  ultimately show ?thesis
    using assms(1,4,6)
    by (simp add: getOrGenerateMasterKey_def existsSync_def readFileSync_def)
qed

text \<open>
  Claim C7. In a state where the secret store is available and the wrapped-key file holds
  the wrap of a 32-byte key, \<^verbatim>\<open>getOrGenerateMasterKey\<close> returns those 32 bytes and leaves
  the world as it is, so a second call returns the same bytes. The secret store and
  base64 are taken to invert their own encodings.
\<close>

theorem master_key_stable:
  assumes "isEncryptionAvailable H" and "secret_store_roundtrip H" and "base64_roundtrip H"
    and "length key = 32" and "encryptString H (base64_encode H key) = Some blob"
    and "files w (getKeyPath H) = Some blob"
  shows "getOrGenerateMasterKey H w = (Some key, w)
       \<and> getOrGenerateMasterKey H (snd (getOrGenerateMasterKey H w)) = (Some key, w)"
  using getOrGenerateMasterKey_stored[OF assms] by simp

text \<open>The same for any first call that returns a key, also one that had to generate it:
  the second call returns what the first persisted.\<close>

lemma second_call_returns_first_key:
  assumes "secret_store_roundtrip H" and "base64_roundtrip H"
    and "getOrGenerateMasterKey H w = (Some key, w1)"
  shows "getOrGenerateMasterKey H w1 = (Some key, w1)"
proof -
  have avail: "isEncryptionAvailable H"
    using assms(3) by (auto simp: getOrGenerateMasterKey_def split: if_splits)
  from getOrGenerateMasterKey_cases[OF assms(3)]
  consider "generateMasterKey H w = (Some key, w1)" | "w1 = w" by auto
  then show ?thesis
  proof cases
    case 1
    from generateMasterKey_Some[OF 1] obtain blob where
      "length key = 32" "encryptString H (base64_encode H key) = Some blob"
      "files w1 (getKeyPath H) = Some blob" by blast
    then show ?thesis
      using getOrGenerateMasterKey_stored[OF avail assms(1,2)] by blast
  next
    case 2
    with assms(3) show ?thesis by simp
  qed
qed

lemma bytes_of_string_of: "bytes_of (string_of b) = b"
  unfolding bytes_of_def string_of_def
proof (induction b)
  case Nil
  then show ?case by simp
next
  case (Cons x xs)
  have "unat x < 256" using unsigned_less[of x] by simp
  then have "of_nat (of_char (char_of (unat x))) = x"
    by (simp add: of_char_of)
  with Cons show ?case by simp
qed

lemma string_of_bytes_of: "string_of (bytes_of s) = s"
  unfolding bytes_of_def string_of_def
proof (induction s)
  case Nil
  then show ?case by simp
next
  case (Cons c cs)
  have "(of_char c :: nat) < 256" by simp
  then have "char_of (unat (of_nat (of_char c) :: byte)) = c"
    by (simp add: unat_of_nat)
  with Cons show ?case by simp
qed

lemma demo_secret_store_roundtrip: "secret_store_roundtrip demo_host"
proof -
  have "length (bytes_of ''v1'') = 2" by (simp add: bytes_of_def)
  then show ?thesis
    by (auto simp: secret_store_roundtrip_def demo_host_def demo_wrap_def demo_unwrap_def
        string_of_bytes_of)
qed

lemma demo_base64_roundtrip: "base64_roundtrip demo_host"
  by (simp add: base64_roundtrip_def demo_host_def bytes_of_string_of)

lemma demo_host_fields:
  "isEncryptionAvailable demo_host"
  "encryptString demo_host = demo_wrap"
  "base64_encode demo_host = string_of"
  by (simp_all add: demo_host_def)

lemma demo_vault_files:
  "files demo_vault (getKeyPath demo_host) = Some (bytes_of ''v1'' @ bytes_of (string_of demo_key))"
  "files demo_vault (getDataPath demo_host) = Some demo_envelope"
  "files demo_vault_rotten (getKeyPath demo_host)
     = Some (bytes_of ''v1'' @ bytes_of (string_of demo_key))"
  "files demo_vault_rotten (getDataPath demo_host) = Some (flip_bit_at 40 3 demo_envelope)"
  using key_path_neq_data_path[of demo_host]
  by (simp_all add: demo_vault_def demo_vault_rotten_def demo_world_def)

lemma demo_key_length: "length demo_key = 32"
  by (simp add: demo_key_def)

lemma demo_wrap_key:
  "encryptString demo_host (base64_encode demo_host demo_key)
     = Some (bytes_of ''v1'' @ bytes_of (string_of demo_key))"
  by (simp add: demo_host_fields demo_wrap_def)

lemma demo_decrypt_genuine: "decryptData demo_host demo_key demo_envelope = Some demo_record"
  by code_simp

lemma demo_decrypt_rotten:
  "decryptData demo_host demo_key (flip_bit_at 40 3 demo_envelope) = None"
  by code_simp

theorem master_key_stable_witness:
  "files demo_vault (getKeyPath demo_host)
     = encryptString demo_host (base64_encode demo_host demo_key)
   \<and> length demo_key = 32
   \<and> getOrGenerateMasterKey demo_host demo_vault = (Some demo_key, demo_vault)
   \<and> getOrGenerateMasterKey demo_host (snd (getOrGenerateMasterKey demo_host demo_vault))
       = (Some demo_key, demo_vault)"
  using master_key_stable [OF demo_host_fields(1) demo_secret_store_roundtrip
      demo_base64_roundtrip demo_key_length demo_wrap_key demo_vault_files(1)]
    demo_key_length demo_wrap_key demo_vault_files(1)
  by simp

text \<open>
  Claim C5. When the secret store is not available, \<^verbatim>\<open>auth:save-credentials\<close> resolves
  with \<^verbatim>\<open>false\<close> and the world is unchanged. More generally, whenever
  \<^verbatim>\<open>getOrGenerateMasterKey\<close> returns \<^verbatim>\<open>null\<close> the handler resolves with \<^verbatim>\<open>false\<close> and no
  file has changed.
\<close>

theorem save_unavailable_no_write:
  "(\<not> isEncryptionAvailable H \<longrightarrow> save_credentials H d w = (Resolved False, w))
   \<and> (fst (getOrGenerateMasterKey H w) = None \<longrightarrow>
        fst (save_credentials H d w) = Resolved False
        \<and> files (snd (save_credentials H d w)) = files w)"
proof (intro conjI impI)
  assume "\<not> isEncryptionAvailable H"
  then show "save_credentials H d w = (Resolved False, w)"
    by (simp add: save_credentials_def getOrGenerateMasterKey_locked)
next
  assume n: "fst (getOrGenerateMasterKey H w) = None"
  then obtain w1 where g: "getOrGenerateMasterKey H w = (None, w1)"
    by (cases "getOrGenerateMasterKey H w") auto
  then have s: "save_credentials H d w = (Resolved False, w1)"
    by (simp add: save_credentials_def)
  from s show "fst (save_credentials H d w) = Resolved False" by simp
  from s getOrGenerateMasterKey_None_files[OF g]
  show "files (snd (save_credentials H d w)) = files w" by simp
qed

theorem save_unavailable_no_write_witness:
  "\<not> isEncryptionAvailable demo_host_locked
   \<and> fst (getOrGenerateMasterKey demo_host_locked demo_vault) = None
   \<and> save_credentials demo_host_locked demo_record demo_vault = (Resolved False, demo_vault)
   \<and> files (snd (save_credentials demo_host_locked demo_record demo_vault)) = files demo_vault"
proof -
  have locked: "\<not> isEncryptionAvailable demo_host_locked"
    by (simp add: demo_host_locked_def)
  show ?thesis
    using save_unavailable_no_write [of demo_host_locked demo_record demo_vault] locked
    by (simp add: getOrGenerateMasterKey_locked)
qed

lemma clear_credentials_unfold:
  assumes "existsSync w (getDataPath H) \<longrightarrow> \<not> unlink_denied w (getDataPath H)"
  shows "clear_credentials H w
           = (Resolved True, w\<lparr>files := (files w)(getDataPath H := None)\<rparr>)"
proof (cases "files w (getDataPath H)")
  case None
  then have "(files w)(getDataPath H := None) = files w" by (simp add: fun_upd_idem)
  with None show ?thesis by (simp add: clear_credentials_def existsSync_def)
next
  case (Some b)
  with assms show ?thesis by (simp add: clear_credentials_def existsSync_def unlinkSync_def)
qed

lemma clear_credentials_rejects:
  assumes "existsSync w (getDataPath H)" and "unlink_denied w (getDataPath H)"
  shows "clear_credentials H w = (Rejected (eperm (getDataPath H)), w)"
  using assms by (auto simp: clear_credentials_def existsSync_def unlinkSync_def)

lemma demo_vault_pinned_facts:
  "existsSync demo_vault_pinned (getDataPath demo_host)"
  "unlink_denied demo_vault_pinned (getDataPath demo_host)"
  "files demo_vault_pinned (getDataPath demo_host) = Some demo_envelope"
  using demo_vault_files(2) by (simp_all add: demo_vault_pinned_def existsSync_def)

text \<open>
  Claim C6, as stated, fails: it has \<^verbatim>\<open>auth:clear-credentials\<close> succeed whether or not the
  vault file exists. \<^verbatim>\<open>fs.unlinkSync\<close> is called outside any \<^verbatim>\<open>try\<close>; in
  \<open>demo_vault_pinned\<close> the vault file exists and cannot be removed, the invocation rejects
  with the error of \<^verbatim>\<open>unlinkSync\<close> and the file stays in place.
\<close>

theorem clear_credentials_rejects_counterexample:
  "existsSync demo_vault_pinned (getDataPath demo_host)
   \<and> fst (clear_credentials demo_host demo_vault_pinned) = Rejected (eperm (getDataPath demo_host))
   \<and> fst (clear_credentials demo_host demo_vault_pinned) \<noteq> Resolved True
   \<and> snd (clear_credentials demo_host demo_vault_pinned) = demo_vault_pinned
   \<and> existsSync (snd (clear_credentials demo_host demo_vault_pinned)) (getDataPath demo_host)"
  using clear_credentials_rejects [OF demo_vault_pinned_facts(1,2)] demo_vault_pinned_facts(1)
  by simp

text \<open>
  Claim C6, amended. When the vault file does not exist, or exists and \<^verbatim>\<open>unlinkSync\<close>
  removes it without throwing, \<^verbatim>\<open>auth:clear-credentials\<close> resolves with \<^verbatim>\<open>true\<close> and leaves
  the file system without the vault file and otherwise as it was; a second run resolves
  with \<^verbatim>\<open>true\<close> again and changes nothing more, and \<^verbatim>\<open>auth:load-credentials\<close> afterwards
  resolves with \<^verbatim>\<open>null\<close>.
\<close>

theorem clear_credentials_idempotent:
  assumes "existsSync w (getDataPath H) \<longrightarrow> \<not> unlink_denied w (getDataPath H)"
  shows "fst (clear_credentials H w) = Resolved True
   \<and> files (snd (clear_credentials H w)) = (files w)(getDataPath H := None)
   \<and> clear_credentials H (snd (clear_credentials H w)) = (Resolved True, snd (clear_credentials H w))
   \<and> load_credentials H (snd (clear_credentials H w)) = (Resolved JNull, snd (clear_credentials H w))"
proof -
  let ?w1 = "w\<lparr>files := (files w)(getDataPath H := None)\<rparr>"
  have first: "clear_credentials H w = (Resolved True, ?w1)"
    using assms by (rule clear_credentials_unfold)
  have gone: "\<not> existsSync ?w1 (getDataPath H)" by (simp add: existsSync_def)
  then have second: "clear_credentials H ?w1 = (Resolved True, ?w1)"
    by (simp add: clear_credentials_def)
  from gone have load: "load_credentials H ?w1 = (Resolved JNull, ?w1)"
    by (simp add: load_credentials_def)
  from first second load show ?thesis by simp
qed

theorem clear_credentials_idempotent_witness:
  "existsSync demo_vault (getDataPath demo_host)
   \<and> \<not> unlink_denied demo_vault (getDataPath demo_host)
   \<and> fst (clear_credentials demo_host demo_vault) = Resolved True
   \<and> \<not> existsSync (snd (clear_credentials demo_host demo_vault)) (getDataPath demo_host)
   \<and> fst (clear_credentials demo_host (snd (clear_credentials demo_host demo_vault)))
       = Resolved True
   \<and> fst (load_credentials demo_host (snd (clear_credentials demo_host demo_vault)))
       = Resolved JNull"
proof -
  have ok: "\<not> unlink_denied demo_vault (getDataPath demo_host)"
    by (simp add: demo_vault_def demo_world_def)
  then have h: "existsSync demo_vault (getDataPath demo_host)
      \<longrightarrow> \<not> unlink_denied demo_vault (getDataPath demo_host)" by simp
  show ?thesis
    using clear_credentials_idempotent [OF h] ok demo_vault_files(2)
    by (simp add: existsSync_def)
qed

lemma load_credentials_with_key:
  assumes "getOrGenerateMasterKey H w = (Some k, w1)" and "files w (getDataPath H) = Some fb"
  shows "load_credentials H w
           = (Resolved (case decryptData H k fb of None \<Rightarrow> JNull | Some v \<Rightarrow> v), w1)"
proof -
  have "files w1 (getDataPath H) = Some fb"
    using getOrGenerateMasterKey_other_files[OF assms(1), of "getDataPath H"]
      key_path_neq_data_path[of H] assms(2) by simp
  with assms show ?thesis
    by (simp add: load_credentials_def existsSync_def readFileSync_def split: option.splits)
qed

lemma demo_rotten_key:
  "getOrGenerateMasterKey demo_host demo_vault_rotten = (Some demo_key, demo_vault_rotten)"
  using getOrGenerateMasterKey_stored [OF demo_host_fields(1) demo_secret_store_roundtrip
      demo_base64_roundtrip demo_key_length demo_wrap_key demo_vault_files(3)] .

text \<open>
  Claim C4, as stated, fails: it has \<^verbatim>\<open>auth:load-credentials\<close> return "none" exactly when
  no vault file exists and a distinct decrypt-failure result when the stored envelope
  fails authentication. In \<open>demo_vault_rotten\<close> the vault file exists and fails
  authentication, and the handler resolves with \<^verbatim>\<open>null\<close>, the very value it resolves with
  in \<open>demo_world\<close>, where there is no vault file.
\<close>

theorem load_decrypt_failure_counterexample:
  "existsSync demo_vault_rotten (getDataPath demo_host)
   \<and> decryptData demo_host demo_key (flip_bit_at 40 3 demo_envelope) = None
   \<and> fst (load_credentials demo_host demo_vault_rotten) = Resolved JNull
   \<and> \<not> existsSync demo_world (getDataPath demo_host)
   \<and> fst (load_credentials demo_host demo_world) = Resolved JNull"
proof -
  have "fst (load_credentials demo_host demo_vault_rotten) = Resolved JNull"
    using load_credentials_with_key[OF demo_rotten_key demo_vault_files(4)] demo_decrypt_rotten
    by simp
  moreover have "\<not> existsSync demo_world (getDataPath demo_host)"
    by (simp add: existsSync_def demo_world_def)
  moreover from this have "fst (load_credentials demo_host demo_world) = Resolved JNull"
    by (simp add: load_credentials_def)
  ultimately show ?thesis
    using demo_vault_files(4) demo_decrypt_rotten by (simp add: existsSync_def)
qed

text \<open>
  Claim C4, amended. \<^verbatim>\<open>auth:load-credentials\<close> never rejects. It resolves with \<^verbatim>\<open>null\<close>
  when no vault file exists, and also when the master key is unavailable and when
  \<^verbatim>\<open>decryptData\<close> throws on the stored envelope: a decrypt failure is reported as
  "nothing stored". Otherwise it resolves with the decrypted value.
\<close>

theorem load_credentials_outcomes:
  "(\<exists>v. fst (load_credentials H w) = Resolved v)
   \<and> (\<not> existsSync w (getDataPath H) \<longrightarrow> load_credentials H w = (Resolved JNull, w))
   \<and> (fst (getOrGenerateMasterKey H w) = None \<longrightarrow> fst (load_credentials H w) = Resolved JNull)
   \<and> (\<forall>k w1 fb. getOrGenerateMasterKey H w = (Some k, w1) \<and> files w (getDataPath H) = Some fb \<longrightarrow>
         load_credentials H w
           = (Resolved (case decryptData H k fb of None \<Rightarrow> JNull | Some v \<Rightarrow> v), w1))"
proof (intro conjI impI allI)
  show "\<exists>v. fst (load_credentials H w) = Resolved v"
    by (auto simp: load_credentials_def split: prod.splits option.splits sum.splits)
next
  assume "\<not> existsSync w (getDataPath H)"
  then show "load_credentials H w = (Resolved JNull, w)" by (simp add: load_credentials_def)
next
  assume "fst (getOrGenerateMasterKey H w) = None"
  then show "fst (load_credentials H w) = Resolved JNull"
    by (auto simp: load_credentials_def split: prod.splits option.splits sum.splits)
next
  fix k w1 fb
  assume a: "getOrGenerateMasterKey H w = (Some k, w1) \<and> files w (getDataPath H) = Some fb"
  then show "load_credentials H w
           = (Resolved (case decryptData H k fb of None \<Rightarrow> JNull | Some v \<Rightarrow> v), w1)"
    using load_credentials_with_key[of H w k w1 fb] by simp
qed

theorem load_credentials_outcomes_witness:
  "getOrGenerateMasterKey demo_host demo_vault_rotten = (Some demo_key, demo_vault_rotten)
   \<and> files demo_vault_rotten (getDataPath demo_host) = Some (flip_bit_at 40 3 demo_envelope)
   \<and> decryptData demo_host demo_key (flip_bit_at 40 3 demo_envelope) = None
   \<and> load_credentials demo_host demo_vault_rotten = (Resolved JNull, demo_vault_rotten)
   \<and> \<not> existsSync demo_world (getDataPath demo_host)
   \<and> load_credentials demo_host demo_world = (Resolved JNull, demo_world)
   \<and> fst (getOrGenerateMasterKey demo_host_locked demo_vault) = None
   \<and> fst (load_credentials demo_host_locked demo_vault) = Resolved JNull"
proof -
  have absent: "\<not> existsSync demo_world (getDataPath demo_host)"
    by (simp add: existsSync_def demo_world_def)
  have locked: "fst (getOrGenerateMasterKey demo_host_locked demo_vault) = None"
    by (simp add: getOrGenerateMasterKey_locked demo_host_locked_def)
  show ?thesis
    using load_credentials_outcomes [of demo_host demo_vault_rotten]
      load_credentials_outcomes [of demo_host demo_world]
      load_credentials_outcomes [of demo_host_locked demo_vault]
      demo_rotten_key demo_vault_files(4) demo_decrypt_rotten absent locked
    by simp
qed

section \<open>The signing handler\<close>

lemma or_string_getSize [simp]: "or_string getSize_of_undefined d = getSize_of_undefined"
  by (simp add: or_string_def getSize_of_undefined_def)

lemma or_string_enoent [simp]: "or_string (enoent p) d = enoent p"
  by (simp add: or_string_def enoent_def)

lemma sign_and_write_cases:
  "(\<exists>st msg. sign_and_write L doc a w = (Inl (st, msg), w))
   \<or> (\<exists>signed. sign_and_write L doc a w
        = (Inr (outputPath (filePath a)),
           w\<lparr>files := (files w)(outputPath (filePath a) \<mapsto> signed)\<rparr>))"
  by (auto simp: sign_and_write_def writeFileSync_def split: sum.splits)

lemma sign_pdf_try_cases:
  "(\<exists>st msg. sign_pdf_try L a w = (Inl (st, msg), w))
   \<or> (\<exists>signed. sign_pdf_try L a w
        = (Inr (outputPath (filePath a)),
           w\<lparr>files := (files w)(outputPath (filePath a) \<mapsto> signed)\<rparr>))"
proof -
  have "\<And>doc. (\<exists>st msg. sign_and_write L doc a w = (Inl (st, msg), w))
   \<or> (\<exists>signed. sign_and_write L doc a w
        = (Inr (outputPath (filePath a)),
           w\<lparr>files := (files w)(outputPath (filePath a) \<mapsto> signed)\<rparr>))"
    by (rule sign_and_write_cases)
  then show ?thesis
    by (auto simp: sign_pdf_try_def split: sum.splits)
qed

lemma sign_pdf_catch:
  "sign_pdf_try L a w = (Inl (st, msg), w') \<Longrightarrow>
   sign_pdf L a w = (Resolved (Failure (or_string msg ''Unknown error'')), w')"
  by (simp add: sign_pdf_def)

lemma sign_pdf_return:
  "sign_pdf_try L a w = (Inr path, w') \<Longrightarrow> sign_pdf L a w = (Resolved (Success path), w')"
  by (simp add: sign_pdf_def)

lemma sign_pdf_cases:
  "(\<exists>err. sign_pdf L a w = (Resolved (Failure err), w))
   \<or> (\<exists>signed. sign_pdf L a w
        = (Resolved (Success (outputPath (filePath a))),
           w\<lparr>files := (files w)(outputPath (filePath a) \<mapsto> signed)\<rparr>))"
  using sign_pdf_try_cases[of L a w]
  by (auto simp: sign_pdf_def)


lemma sign_pdf_invalid_page:
  assumes "readFileSync w (filePath a) = Inr b" and "pdf_load L b = Inr doc"
    and "pageIndex a < 0 \<or> int (length (pageHeights L doc)) \<le> pageIndex a"
  shows "sign_pdf_try L a w = (Inl (Idle, getSize_of_undefined), w)"
  using assms by (simp add: sign_pdf_try_def)

text \<open>
  Claim C8, amended. When the document can be read and parsed and \<^verbatim>\<open>pageIndex\<close> does not
  index one of its pages, the \<^verbatim>\<open>try\<close> block throws in state \<open>Idle\<close>, before any
  annotation, placeholder, signing or write step and with the world unchanged, and the
  handler resolves with \<^verbatim>\<open>{ success: false, error }\<close> where \<^verbatim>\<open>error\<close> is the message of
  the \<^verbatim>\<open>TypeError\<close> raised by \<^verbatim>\<open>page.getSize()\<close> on \<^verbatim>\<open>undefined\<close>.
\<close>

theorem invalid_page_typeerror:
  assumes "readFileSync w (filePath a) = Inr b" and "pdf_load L b = Inr doc"
    and "pageIndex a < 0 \<or> int (length (pageHeights L doc)) \<le> pageIndex a"
  shows "sign_pdf_try L a w = (Inl (Idle, getSize_of_undefined), w)
       \<and> sign_pdf L a w = (Resolved (Failure getSize_of_undefined), w)"
  using sign_pdf_invalid_page[OF assms] by (simp add: sign_pdf_def)

lemma demo_desk_files:
  "files demo_desk ''/docs/contract.pdf'' = Some [1, 2, 3]"
  "files demo_desk ''/docs/contract'' = Some [1, 2, 3]"
  "files demo_desk ''/docs/SCAN.PDF'' = Some [1]"
  "files demo_desk ''/a.p12'' = Some [9, 9]"
  "files demo_desk ''/docs/missing.pdf'' = None"
  by (simp_all add: demo_desk_def demo_world_def)

lemma demo_load_contract:
  "pdf_load demo_pdf [1, 2, 3] = Inr \<lparr>heights = [842], labels = []\<rparr>"
  by (simp add: demo_pdf_def demo_pdf_load_def)

theorem invalid_page_typeerror_witness:
  "readFileSync demo_desk (filePath (demo_args\<lparr>pageIndex := 5\<rparr>)) = Inr [1, 2, 3]
   \<and> length (pageHeights demo_pdf \<lparr>heights = [842], labels = []\<rparr>) = 1
   \<and> sign_pdf demo_pdf (demo_args\<lparr>pageIndex := 5\<rparr>) demo_desk
       = (Resolved (Failure getSize_of_undefined), demo_desk)"
proof -
  have r: "readFileSync demo_desk (filePath (demo_args\<lparr>pageIndex := 5\<rparr>)) = Inr [1, 2, 3]"
    by (simp add: readFileSync_def demo_args_def demo_desk_files)
  have p: "pageIndex (demo_args\<lparr>pageIndex := 5\<rparr>) < 0
     \<or> int (length (pageHeights demo_pdf \<lparr>heights = [842], labels = []\<rparr>))
         \<le> pageIndex (demo_args\<lparr>pageIndex := 5\<rparr>)"
    by (simp add: demo_pdf_def)
  show ?thesis
    using invalid_page_typeerror [OF r demo_load_contract p] r by (simp add: demo_pdf_def)
qed

text \<open>
  Claim C8, as stated, fails: it has the pipeline fail with the specific error kind
  \<^verbatim>\<open>InvalidPage\<close>. For page index 5 of a one-page document the handler's error is the
  \<^verbatim>\<open>TypeError\<close> message of the runtime, not an invalid-page kind.
\<close>

theorem invalid_page_kind_counterexample:
  "fst (sign_pdf demo_pdf (demo_args\<lparr>pageIndex := 5\<rparr>) demo_desk)
     = Resolved (Failure getSize_of_undefined)
   \<and> fst (sign_pdf demo_pdf (demo_args\<lparr>pageIndex := 5\<rparr>) demo_desk)
     \<noteq> Resolved (Failure spec_InvalidPage)"
proof -
  have r: "readFileSync demo_desk (filePath (demo_args\<lparr>pageIndex := 5\<rparr>)) = Inr [1, 2, 3]"
    by (simp add: readFileSync_def demo_args_def demo_desk_files)
  have p: "pageIndex (demo_args\<lparr>pageIndex := 5\<rparr>) < 0
     \<or> int (length (pageHeights demo_pdf \<lparr>heights = [842], labels = []\<rparr>))
         \<le> pageIndex (demo_args\<lparr>pageIndex := 5\<rparr>)"
    by (simp add: demo_pdf_def)
  have "sign_pdf demo_pdf (demo_args\<lparr>pageIndex := 5\<rparr>) demo_desk
       = (Resolved (Failure getSize_of_undefined), demo_desk)"
    using sign_pdf_invalid_page [OF r demo_load_contract p] by (simp add: sign_pdf_def)
  then show ?thesis
    by (simp add: getSize_of_undefined_def spec_InvalidPage_def)
qed




text \<open>By contrast \<^verbatim>\<open>read-file-buffer\<close> rethrows, and its invocation rejects.\<close>

lemma read_file_buffer_rejects:
  "files w p = None \<Longrightarrow> read_file_buffer p w = (Rejected (enoent p), w)"
  by (simp add: read_file_buffer_def readFileSync_def)

lemma sign_pdf_handler_Object: "sign_pdf_handler L (Object a) w = sign_pdf L a w"
  by (simp add: sign_pdf_handler_def)

text \<open>
  Claim C10, as stated, fails: it has the handler return a result for every input. The
  destructuring of \<^verbatim>\<open>args\<close> stands before the \<^verbatim>\<open>try\<close>, so an invocation without an
  arguments object (\<^verbatim>\<open>undefined\<close> or \<^verbatim>\<open>null\<close>) rejects with the \<^verbatim>\<open>TypeError\<close> of the
  destructuring instead of resolving with \<^verbatim>\<open>{ success: false, error }\<close>.
\<close>

theorem sign_pdf_rejects_counterexample:
  "fst (sign_pdf_handler demo_pdf Undefined demo_desk)
     = Rejected (cannot_destructure ''undefined'')
   \<and> fst (sign_pdf_handler demo_pdf Null demo_desk) = Rejected (cannot_destructure ''null'')
   \<and> fst (sign_pdf_handler demo_pdf Undefined demo_desk)
     \<noteq> Resolved (Failure (cannot_destructure ''undefined''))"
  by (simp add: sign_pdf_handler_def)

text \<open>
  Claim C10, amended. For every arguments object the \<^verbatim>\<open>sign-pdf\<close> invocation resolves,
  with \<^verbatim>\<open>{ success: true, path }\<close> or with \<^verbatim>\<open>{ success: false, error }\<close>; it does not reject.
  Every error thrown in the \<^verbatim>\<open>try\<close> block becomes a failure result with the error's
  message (or \<^verbatim>\<open>'Unknown error'\<close> for an empty one): a missing document, a document that
  does not parse, a missing certificate file, a certificate or passphrase the signer
  rejects.
\<close>

theorem sign_pdf_total:
  "(\<exists>r. fst (sign_pdf_handler L (Object a) w) = Resolved r)
   \<and> ((\<exists>path. fst (sign_pdf_handler L (Object a) w) = Resolved (Success path))
        \<or> (\<exists>err. fst (sign_pdf_handler L (Object a) w) = Resolved (Failure err)))
   \<and> (\<forall>st msg w'. sign_pdf_try L a w = (Inl (st, msg), w') \<longrightarrow>
         sign_pdf_handler L (Object a) w
           = (Resolved (Failure (or_string msg ''Unknown error'')), w'))
   \<and> (files w (filePath a) = None \<longrightarrow>
         sign_pdf_handler L (Object a) w = (Resolved (Failure (enoent (filePath a))), w))
   \<and> (\<forall>b e. files w (filePath a) = Some b \<and> pdf_load L b = Inl e \<longrightarrow>
         sign_pdf_handler L (Object a) w
           = (Resolved (Failure (or_string e ''Unknown error'')), w))
   \<and> (\<forall>doc pdf ph. pdf_save L doc = Inr pdf \<and> plainAddPlaceholder L pdf = Inr ph
         \<and> files w (certPath a) = None \<longrightarrow>
         sign_and_write L doc a w
           = (Inl (PlaceholderReserved, ''Certificate file not found''), w))
   \<and> (\<forall>doc pdf ph p12 e. pdf_save L doc = Inr pdf \<and> plainAddPlaceholder L pdf = Inr ph
         \<and> files w (certPath a) = Some p12
         \<and> p12_sign L ph p12 (or_string (password a) []) = Inl e \<longrightarrow>
         sign_and_write L doc a w = (Inl (PlaceholderReserved, e), w))"
  unfolding sign_pdf_handler_Object
proof (intro conjI allI impI)
  show "\<exists>r. fst (sign_pdf L a w) = Resolved r"
    using sign_pdf_cases[of L a w] by auto
  show "(\<exists>path. fst (sign_pdf L a w) = Resolved (Success path))
        \<or> (\<exists>err. fst (sign_pdf L a w) = Resolved (Failure err))"
    using sign_pdf_cases[of L a w] by auto
next
  fix st msg w'
  assume "sign_pdf_try L a w = (Inl (st, msg), w')"
  then show "sign_pdf L a w = (Resolved (Failure (or_string msg ''Unknown error'')), w')"
    by (rule sign_pdf_catch)
next
  assume "files w (filePath a) = None"
  then show "sign_pdf L a w = (Resolved (Failure (enoent (filePath a))), w)"
    by (simp add: sign_pdf_def sign_pdf_try_def readFileSync_def)
next
  fix b e
  assume "files w (filePath a) = Some b \<and> pdf_load L b = Inl e"
  then show "sign_pdf L a w = (Resolved (Failure (or_string e ''Unknown error'')), w)"
    by (simp add: sign_pdf_def sign_pdf_try_def readFileSync_def)
next
  fix doc pdf ph
  assume "pdf_save L doc = Inr pdf \<and> plainAddPlaceholder L pdf = Inr ph
         \<and> files w (certPath a) = None"
  then show "sign_and_write L doc a w
           = (Inl (PlaceholderReserved, ''Certificate file not found''), w)"
    by (simp add: sign_and_write_def existsSync_def)
next
  fix doc pdf ph p12 e
  assume "pdf_save L doc = Inr pdf \<and> plainAddPlaceholder L pdf = Inr ph
         \<and> files w (certPath a) = Some p12
         \<and> p12_sign L ph p12 (or_string (password a) []) = Inl e"
  then show "sign_and_write L doc a w = (Inl (PlaceholderReserved, e), w)"
    by (simp add: sign_and_write_def existsSync_def readFileSync_def)
qed

theorem sign_pdf_total_witness:
  "files demo_desk (filePath (demo_args\<lparr>filePath := ''/docs/missing.pdf''\<rparr>)) = None
   \<and> sign_pdf_handler demo_pdf (Object (demo_args\<lparr>filePath := ''/docs/missing.pdf''\<rparr>)) demo_desk
       = (Resolved (Failure (enoent ''/docs/missing.pdf'')), demo_desk)
   \<and> read_file_buffer ''/docs/missing.pdf'' demo_desk
       = (Rejected (enoent ''/docs/missing.pdf''), demo_desk)"
proof -
  have m: "files demo_desk (filePath (demo_args\<lparr>filePath := ''/docs/missing.pdf''\<rparr>)) = None"
    by (simp add: demo_desk_files)
  show ?thesis
    using sign_pdf_total [of demo_pdf "demo_args\<lparr>filePath := ''/docs/missing.pdf''\<rparr>" demo_desk]
      m read_file_buffer_rejects[OF demo_desk_files(5)]
    by simp
qed

end
